theory Spec2Isabelle
  imports Complex_Main
begin

section \<open>Python primitives used by the script\<close>

text \<open>
  The script \<^verbatim>\<open>basic-bimodal.py\<close> builds its file names and panel titles with
  \<^verbatim>\<open>str\<close>, \<^verbatim>\<open>chr\<close>, \<^verbatim>\<open>ord\<close> and string concatenation. Python integers are
  unbounded, so they are \<^typ>\<open>int\<close>; strings are \<^typ>\<open>string\<close>.
\<close>

definition digit_char :: "nat \<Rightarrow> char" where
  "digit_char d = char_of (of_char CHR ''0'' + d)"

text \<open>The decimal digits of a natural number, most significant first.\<close>

fun str_nat :: "nat \<Rightarrow> string" where
  "str_nat n = (if n < 10 then [digit_char n] else str_nat (n div 10) @ [digit_char (n mod 10)])"

declare str_nat.simps [simp del]

text \<open>Python's \<^verbatim>\<open>str(i)\<close> on an integer: a minus sign for a negative number, then the digits.\<close>

definition str_int :: "int \<Rightarrow> string" where
  "str_int i = (if i < 0 then CHR ''-'' # str_nat (nat (- i)) else str_nat (nat i))"

text \<open>
  The number a string of decimal digits denotes: the way back from \<open>str_nat\<close>, which
  shows that distinct numbers have distinct renderings.
\<close>

definition digits_value :: "string \<Rightarrow> nat" where
  "digits_value s = foldl (\<lambda>a c. 10 * a + (of_char c - of_char CHR ''0'')) 0 s"

text \<open>
  Python's \<^verbatim>\<open>ord\<close> and \<^verbatim>\<open>chr\<close>. A HOL character is one byte, so \<open>chr\<close> agrees with
  Python for code points below 256; \<^verbatim>\<open>chr(ord('a') + i)\<close> stays there for \<open>i < 159\<close>.
\<close>

definition ord :: "char \<Rightarrow> nat" where
  "ord c = of_char c"

definition chr :: "nat \<Rightarrow> string" where
  "chr n = [char_of n]"

section \<open>Configuration constants\<close>

definition name :: string where
  "name = ''basic-bimodal''"

definition dir :: string where
  "dir = ''../../../flip-bench/experiments/basic-bimodal/''"

text \<open>
  The axis bounds. \<^verbatim>\<open>ymax = 0.3\<close> is a Python float; it is read here as the real
  number it denotes.
\<close>

definition xmin :: real where "xmin = - 5"
definition xmax :: real where "xmax = 5"
definition ymin :: real where "ymin = 0"
definition ymax :: real where "ymax = 0.3"

definition data_counts :: "int list" where
  "data_counts = [40, 60, 340]"

definition countmin :: int where "countmin = 40"
definition countmax :: int where "countmax = 500"
definition rearr_start :: int where "rearr_start = 50"
definition rearr_period :: int where "rearr_period = 100"
definition kld_max :: real where "kld_max = 0.13"

text \<open>The sweep of the animations; \<^verbatim>\<open>end\<close> is a keyword here, hence \<open>end_count\<close>.\<close>

definition start :: int where "start = 10"
definition end_count :: int where "end_count = 500"
definition step :: int where "step = 10"
definition fps :: nat where "fps = 4"

section \<open>File paths\<close>

text \<open>
  \<^verbatim>\<open>def data_loc(i): return dir + "basic-bimodal-pdf-" + str(i) + ".out"\<close>
\<close>

definition data_loc :: "int \<Rightarrow> string" where
  "data_loc i = dir @ ''basic-bimodal-pdf-'' @ str_int i @ ''.out''"

definition kld_data_loc :: string where
  "kld_data_loc = dir @ ''basic-bimodal-kld.out''"

section \<open>The reference density\<close>

text \<open>
  \<^verbatim>\<open>scipy.stats.norm.pdf(x)\<close> with the default location 0 and scale 1 is the standard
  normal density \<open>exp (- x\<^sup>2 / 2) / sqrt (2 pi)\<close>. Floats are read as the reals they
  approximate.
\<close>

definition norm_pdf :: "real \<Rightarrow> real" where
  "norm_pdf x = exp (- (x\<^sup>2) / 2) / sqrt (2 * pi)"

text \<open>
  \<^verbatim>\<open>def expected(x, i = -1): return 0.5 * norm.pdf(x - 2) + 0.5 * norm.pdf(x + 2)\<close>

  The update count \<open>i\<close> is an explicit argument here; a call that leaves it out is
  \<open>expected x (- 1)\<close>.
\<close>

definition expected :: "real \<Rightarrow> int \<Rightarrow> real" where
  "expected x i = 0.5 * norm_pdf (x - 2) + 0.5 * norm_pdf (x + 2)"

text \<open>
  The specification's \<open>N(x; mean, std)\<close>: the density at \<open>x\<close> of the normal distribution
  with the given mean and standard deviation. This definition follows the specification,
  not the code, and is the one \<open>expected\<close> is compared with.
\<close>

definition normal_density :: "real \<Rightarrow> real \<Rightarrow> real \<Rightarrow> real" where
  "normal_density mean std x =
     exp (- ((x - mean)\<^sup>2) / (2 * std\<^sup>2)) / (std * sqrt (2 * pi))"

section \<open>Arithmetic progressions of update counts\<close>

text \<open>
  Modelled from the spec: the checkpoints \<open>c, c + s, c + 2 s, ...\<close> up to and including
  the bound \<open>e\<close>. The renderers that enumerate update counts (\<^verbatim>\<open>kldplot.py\<close> and
  \<^verbatim>\<open>pdfplot.py\<close>) are missing from the sources; the specification describes the
  rearrangement markers as the values \<open>rearr_start + k * rearr_period\<close> within
  \<open>[countmin, countmax]\<close> and the animation sweep as running over
  \<open>range(start, end, step)\<close> "inclusive of end". Only a positive step is described.
\<close>

function upto_by :: "int \<Rightarrow> int \<Rightarrow> int \<Rightarrow> int list" where
  "upto_by c e s = (if 0 < s \<and> c \<le> e then c # upto_by (c + s) e s else [])"
  by pat_completeness auto
termination
  by (relation "measure (\<lambda>(c, e, s). nat (e - c + 1))") auto

declare upto_by.simps [simp del]

text \<open>
  The other reading the specification leaves open for the sweep: the bound itself is
  left out, as Python's built-in \<^verbatim>\<open>range\<close> does for a positive step.
\<close>

function below_by :: "int \<Rightarrow> int \<Rightarrow> int \<Rightarrow> int list" where
  "below_by c e s = (if 0 < s \<and> c < e then c # below_by (c + s) e s else [])"
  by pat_completeness auto
termination
  by (relation "measure (\<lambda>(c, e, s). nat (e - c))") auto

declare below_by.simps [simp del]

text \<open>
  Modelled from the spec: the set of rearrangement marker positions in the
  specification's words, every \<open>rearr_start + k * rearr_period\<close> (\<open>k = 0, 1, 2, ...\<close>)
  within \<open>[countmin, countmax]\<close>.
\<close>

definition marker_positions :: "int \<Rightarrow> int \<Rightarrow> int \<Rightarrow> int \<Rightarrow> int set" where
  "marker_positions rs rp cmin cmax =
     {c. \<exists>k::nat. c = rs + int k * rp \<and> cmin \<le> c \<and> c \<le> cmax}"

text \<open>
  Modelled from the spec: the markers as the divergence renderer of \<^verbatim>\<open>kldplot.py\<close>
  (missing from the sources) enumerates them, in increasing order.
\<close>

definition rearr_markers :: "int \<Rightarrow> int \<Rightarrow> int \<Rightarrow> int \<Rightarrow> int list" where
  "rearr_markers rs rp cmin cmax = filter (\<lambda>c. cmin \<le> c) (upto_by rs cmax rp)"

section \<open>Files, errors and the state of a run\<close>

text \<open>
  The script reads checkpoint files and writes image files. A run is modelled against an
  environment: what each input path holds and which output paths can be written. The
  sample data of a file is left abstract (type \<open>'d\<close>).
\<close>

datatype error = MissingFile string | MalformedFile string | WriteFailed string

datatype 'd file_state = Missing | Malformed | Samples 'd

record 'd env =
  files :: "string \<Rightarrow> 'd file_state"
  writable :: "string \<Rightarrow> bool"

definition loadable :: "'d env \<Rightarrow> string \<Rightarrow> bool" where
  "loadable env path = (case files env path of Samples d \<Rightarrow> True | _ \<Rightarrow> False)"

fun is_load_error :: "error \<Rightarrow> bool" where
  "is_load_error (MissingFile p) = True"
| "is_load_error (MalformedFile p) = True"
| "is_load_error (WriteFailed p) = False"

text \<open>
  Modelled from the spec: loading a data file (\<^verbatim>\<open>preprocessing.py\<close> is missing from
  the sources). A missing or malformed file is a load error that names the path.
\<close>

definition load_samples :: "'d env \<Rightarrow> string \<Rightarrow> error + 'd" where
  "load_samples env path =
     (case files env path of
        Missing \<Rightarrow> Inl (MissingFile path)
      | Malformed \<Rightarrow> Inl (MalformedFile path)
      | Samples d \<Rightarrow> Inr d)"

text \<open>The four axis bounds handed to a render call.\<close>

record window =
  win_xmin :: real
  win_xmax :: real
  win_ymin :: real
  win_ymax :: real

text \<open>What a render call draws on a panel.\<close>

datatype 'd drawing =
    BarComparison "real \<Rightarrow> int \<Rightarrow> real" 'd window
  | DivergenceTrace 'd real int int "int list"

text \<open>
  A panel (a matplotlib axes) of the static figure: its place in the grid, its title and
  what has been drawn on it.
\<close>

record 'd panel =
  nrows :: nat
  ncols :: nat
  position :: nat
  title :: string
  drawing :: "'d drawing option"

datatype frame_style = ErrorBars | Bars

text \<open>One frame of an animation: the checkpoint it shows and what it was rendered from.\<close>

record 'd frame =
  frame_style :: frame_style
  frame_count :: int
  frame_reference :: "real \<Rightarrow> int \<Rightarrow> real"
  frame_samples :: 'd
  frame_window :: window

datatype 'd artifact = FigureFile "'d panel list" | AnimationFile "'d frame list" nat

text \<open>
  The state of a run: the panels of the figure \<^verbatim>\<open>fig\<close>, whether the legend has been
  drawn and the figure shown, the script's variables \<^verbatim>\<open>utd_animation1\<close> and
  \<^verbatim>\<open>utd_animation2\<close>, and the files written so far, in order.
\<close>

record 'd world =
  figsize :: "nat \<times> nat"
  panels :: "'d panel list"
  legend :: bool
  shown :: bool
  utd_animation1 :: "'d frame list option"
  utd_animation2 :: "'d frame list option"
  written :: "(string \<times> 'd artifact) list"

text \<open>\<^verbatim>\<open>fig = plt.figure(figsize=(20, 5))\<close>\<close>

definition initial_world :: "'d world" where
  "initial_world =
     \<lparr>figsize = (20, 5), panels = [], legend = False, shown = False,
      utd_animation1 = None, utd_animation2 = None, written = []\<rparr>"

section \<open>The plotting library\<close>

text \<open>
  \<^verbatim>\<open>plt.subplot(r, c, k)\<close> adds a panel at place \<open>k\<close> of an \<open>r\<close> by \<open>c\<close> grid and
  returns it; the handle is the panel's index in the figure. The script asks for each
  place once.
\<close>

definition subplot :: "nat \<Rightarrow> nat \<Rightarrow> nat \<Rightarrow> 'd world \<Rightarrow> nat \<times> 'd world" where
  "subplot r c k w =
     (length (panels w),
      w\<lparr>panels := panels w @
          [\<lparr>nrows = r, ncols = c, position = k, title = [], drawing = None\<rparr>]\<rparr>)"

text \<open>\<^verbatim>\<open>ax.set_title(t)\<close>, for a handle \<open>ax\<close> that \<open>subplot\<close> returned.\<close>

definition set_title :: "nat \<Rightarrow> string \<Rightarrow> 'd world \<Rightarrow> 'd world" where
  "set_title ax t w = w\<lparr>panels := (panels w)[ax := (panels w ! ax)\<lparr>title := t\<rparr>]\<rparr>"

definition draw :: "nat \<Rightarrow> 'd drawing \<Rightarrow> 'd world \<Rightarrow> 'd world" where
  "draw ax g w = w\<lparr>panels := (panels w)[ax := (panels w ! ax)\<lparr>drawing := Some g\<rparr>]\<rparr>"

text \<open>Writing an output file: \<^verbatim>\<open>plt.savefig\<close> and the \<^verbatim>\<open>save\<close> of an animation.\<close>

definition write_file :: "'d env \<Rightarrow> string \<Rightarrow> 'd artifact \<Rightarrow> 'd world \<Rightarrow> error option \<times> 'd world" where
  "write_file env path a w =
     (if writable env path then (None, w\<lparr>written := written w @ [(path, a)]\<rparr>)
      else (Some (WriteFailed path), w))"

definition savefig :: "'d env \<Rightarrow> string \<Rightarrow> 'd world \<Rightarrow> error option \<times> 'd world" where
  "savefig env path w = write_file env path (FigureFile (panels w)) w"

section \<open>The renderers\<close>

text \<open>
  Modelled from the spec: \<^verbatim>\<open>pdfplot.pdfplot_bar\<close> (missing from the sources) loads
  the checkpoint's samples and draws them against the reference function within the four
  axis bounds, on the given panel; a file that is missing or malformed is a load error
  passed on to the caller.
\<close>

definition pdfplot_bar ::
  "'d env \<Rightarrow> nat \<Rightarrow> (real \<Rightarrow> int \<Rightarrow> real) \<Rightarrow> string \<Rightarrow> real \<Rightarrow> real \<Rightarrow> real \<Rightarrow> real
     \<Rightarrow> 'd world \<Rightarrow> error option \<times> 'd world" where
  "pdfplot_bar env ax f path x0 x1 y0 y1 w =
     (case load_samples env path of
        Inl e \<Rightarrow> (Some e, w)
      | Inr d \<Rightarrow>
          (None, draw ax (BarComparison f d
             \<lparr>win_xmin = x0, win_xmax = x1, win_ymin = y0, win_ymax = y1\<rparr>) w))"

text \<open>
  Modelled from the spec: \<^verbatim>\<open>kldplot.kldplot\<close> (missing from the sources) loads the
  divergence trace and draws it with the rearrangement markers; same failure policy.
\<close>

definition kldplot ::
  "'d env \<Rightarrow> nat \<Rightarrow> string \<Rightarrow> real \<Rightarrow> int \<Rightarrow> int \<Rightarrow> int \<Rightarrow> int
     \<Rightarrow> 'd world \<Rightarrow> error option \<times> 'd world" where
  "kldplot env ax path cap cmin cmax rs rp w =
     (case load_samples env path of
        Inl e \<Rightarrow> (Some e, w)
      | Inr d \<Rightarrow>
          (None, draw ax (DivergenceTrace d cap cmin cmax (rearr_markers rs rp cmin cmax)) w))"

text \<open>
  Modelled from the spec: the frames of an animation, one per checkpoint, in order. Each
  frame resolves the checkpoint's path, loads its samples and is rendered with the same
  reference function and axis bounds. The first file that fails to load ends the build
  with its load error; no frame is left out.
\<close>

fun build_frames ::
  "'d env \<Rightarrow> frame_style \<Rightarrow> (int \<Rightarrow> string) \<Rightarrow> (real \<Rightarrow> int \<Rightarrow> real) \<Rightarrow> window
     \<Rightarrow> int list \<Rightarrow> error + 'd frame list" where
  "build_frames env sty loc f win [] = Inr []"
| "build_frames env sty loc f win (c # cs) =
     (case load_samples env (loc c) of
        Inl e \<Rightarrow> Inl e
      | Inr d \<Rightarrow>
          (case build_frames env sty loc f win cs of
             Inl e \<Rightarrow> Inl e
           | Inr frs \<Rightarrow>
               Inr (\<lparr>frame_style = sty, frame_count = c, frame_reference = f,
                     frame_samples = d, frame_window = win\<rparr> # frs)))"

text \<open>
  Modelled from the spec: \<^verbatim>\<open>pdfplot.animated_pdfplot_errorbar\<close> and
  \<^verbatim>\<open>pdfplot.animated_pdfplot_bar\<close> (missing from the sources) sweep the checkpoints
  from \<open>start\<close> to \<open>end\<close> inclusive in steps of \<open>step\<close>.
\<close>

definition animated_pdfplot_errorbar ::
  "'d env \<Rightarrow> (int \<Rightarrow> string) \<Rightarrow> int \<Rightarrow> int \<Rightarrow> int \<Rightarrow> (real \<Rightarrow> int \<Rightarrow> real)
     \<Rightarrow> real \<Rightarrow> real \<Rightarrow> real \<Rightarrow> real \<Rightarrow> error + 'd frame list" where
  "animated_pdfplot_errorbar env loc st en sp f x0 x1 y0 y1 =
     build_frames env ErrorBars loc f
       \<lparr>win_xmin = x0, win_xmax = x1, win_ymin = y0, win_ymax = y1\<rparr> (upto_by st en sp)"

definition animated_pdfplot_bar ::
  "'d env \<Rightarrow> (int \<Rightarrow> string) \<Rightarrow> int \<Rightarrow> int \<Rightarrow> int \<Rightarrow> (real \<Rightarrow> int \<Rightarrow> real)
     \<Rightarrow> real \<Rightarrow> real \<Rightarrow> real \<Rightarrow> real \<Rightarrow> error + 'd frame list" where
  "animated_pdfplot_bar env loc st en sp f x0 x1 y0 y1 =
     build_frames env Bars loc f
       \<lparr>win_xmin = x0, win_xmax = x1, win_ymin = y0, win_ymax = y1\<rparr> (upto_by st en sp)"

section \<open>The script\<close>

text \<open>
  The title of the \<open>i\<close>-th density panel:
  \<^verbatim>\<open>"(" + chr(ord('a') + i) + ")" + " pdf at update count: " + str(data_count)\<close>
\<close>

definition annotation :: "nat \<Rightarrow> int \<Rightarrow> string" where
  "annotation i data_count =
     ''('' @ chr (ord CHR ''a'' + i) @ '')'' @ '' pdf at update count: '' @ str_int data_count"

text \<open>
  The loop over \<^verbatim>\<open>data_counts\<close> (lines 30 to 36), with \<open>n\<close> the length of the whole
  list and \<open>i\<close> the running counter. An error of the renderer ends the run.
\<close>

fun density_panels ::
  "'d env \<Rightarrow> nat \<Rightarrow> int list \<Rightarrow> nat \<Rightarrow> 'd world \<Rightarrow> error option \<times> 'd world" where
  "density_panels env n [] i w = (None, w)"
| "density_panels env n (data_count # rest) i w =
     (case subplot 1 (n + 1) (i + 1) w of
        (ax, w1) \<Rightarrow>
          (case pdfplot_bar env ax expected (data_loc data_count) xmin xmax ymin ymax
                  (set_title ax (annotation i data_count) w1) of
             (Some e, w2) \<Rightarrow> (Some e, w2)
           | (None, w2) \<Rightarrow> density_panels env n rest (i + 1) w2))"

text \<open>The divergence panel (lines 49 to 51).\<close>

definition kld_panel :: "'d env \<Rightarrow> 'd world \<Rightarrow> error option \<times> 'd world" where
  "kld_panel env w =
     (case subplot 1 (length data_counts + 1) (length data_counts + 1) w of
        (ax, w1) \<Rightarrow>
          kldplot env ax kld_data_loc kld_max countmin countmax rearr_start rearr_period
            (set_title ax ''(d) KL-divergence'' w1))"

text \<open>The static figure: the density panels, then the divergence panel.\<close>

definition static_figure :: "'d env \<Rightarrow> 'd world \<Rightarrow> error option \<times> 'd world" where
  "static_figure env w =
     (case density_panels env (length data_counts) data_counts 0 w of
        (Some e, w1) \<Rightarrow> (Some e, w1)
      | (None, w1) \<Rightarrow> kld_panel env w1)"

text \<open>Saving and showing the figure (lines 55 to 58).\<close>

definition save_plot :: "'d env \<Rightarrow> 'd world \<Rightarrow> error option \<times> 'd world" where
  "save_plot env w =
     (case savefig env (name @ ''.pdf'') (w\<lparr>legend := True\<rparr>) of
        (Some e, w1) \<Rightarrow> (Some e, w1)
      | (None, w1) \<Rightarrow>
          (case savefig env (name @ ''.png'') w1 of
             (Some e, w2) \<Rightarrow> (Some e, w2)
           | (None, w2) \<Rightarrow> (None, w2\<lparr>shown := True\<rparr>)))"

text \<open>The two animations (lines 68 to 72): each is built, then saved.\<close>

definition animation1 :: "'d env \<Rightarrow> 'd world \<Rightarrow> error option \<times> 'd world" where
  "animation1 env w =
     (case animated_pdfplot_errorbar env data_loc start end_count step expected
             xmin xmax ymin ymax of
        Inl e \<Rightarrow> (Some e, w)
      | Inr frs \<Rightarrow>
          write_file env (name @ ''-errorbar.gif'') (AnimationFile frs fps)
            (w\<lparr>utd_animation1 := Some frs\<rparr>))"

definition animation2 :: "'d env \<Rightarrow> 'd world \<Rightarrow> error option \<times> 'd world" where
  "animation2 env w =
     (case animated_pdfplot_bar env data_loc start end_count step expected
             xmin xmax ymin ymax of
        Inl e \<Rightarrow> (Some e, w)
      | Inr frs \<Rightarrow>
          write_file env (name @ ''-histo.gif'') (AnimationFile frs fps)
            (w\<lparr>utd_animation2 := Some frs\<rparr>))"

definition animations :: "'d env \<Rightarrow> 'd world \<Rightarrow> error option \<times> 'd world" where
  "animations env w =
     (case animation1 env w of
        (Some e, w1) \<Rightarrow> (Some e, w1)
      | (None, w1) \<Rightarrow> animation2 env w1)"

text \<open>The whole script, from the empty figure.\<close>

definition main :: "'d env \<Rightarrow> error option \<times> 'd world" where
  "main env =
     (case static_figure env initial_world of
        (Some e, w1) \<Rightarrow> (Some e, w1)
      | (None, w1) \<Rightarrow>
          (case save_plot env w1 of
             (Some e, w2) \<Rightarrow> (Some e, w2)
           | (None, w2) \<Rightarrow> animations env w2))"

text \<open>The axis bounds of every render call recorded in a state.\<close>

fun drawing_windows :: "'d drawing option \<Rightarrow> window list" where
  "drawing_windows (Some (BarComparison f d win)) = [win]"
| "drawing_windows (Some (DivergenceTrace d cap cmin cmax ms)) = []"
| "drawing_windows None = []"

fun animation_windows :: "'d frame list option \<Rightarrow> window list" where
  "animation_windows None = []"
| "animation_windows (Some frs) = map frame_window frs"

definition render_windows :: "'d world \<Rightarrow> window list" where
  "render_windows w =
     concat (map (\<lambda>p. drawing_windows (drawing p)) (panels w))
     @ animation_windows (utd_animation1 w) @ animation_windows (utd_animation2 w)"

section \<open>Properties of the reference density\<close>

lemma norm_pdf_shift: "norm_pdf (x - m) = normal_density m 1 x"
  by (simp add: norm_pdf_def normal_density_def)

lemma norm_pdf_even: "norm_pdf (- x) = norm_pdf x"
  by (simp add: norm_pdf_def)


text \<open>
  Claim C1: for every real \<open>x\<close> and every update count \<open>i\<close>, \<open>expected x i\<close> is
  \<open>0.5 * N(x; 2, 1) + 0.5 * N(x; -2, 1)\<close>, and the result is the same for every other
  update count \<open>j\<close>. Being a function of its arguments alone, it is pure and deterministic.
\<close>

theorem expected_is_mixture:
  "expected x i = 0.5 * normal_density 2 1 x + 0.5 * normal_density (- 2) 1 x
   \<and> expected x i = expected x j"
proof -
  have "norm_pdf (x + 2) = normal_density (- 2) 1 x"
    using norm_pdf_shift [of x "- 2"] by simp
  then show ?thesis
    by (simp add: expected_def norm_pdf_shift)
qed

text \<open>
  Claim C5: the reference density is symmetric about zero, for any update counts:
  \<open>expected x i = expected (- x) i\<close>.
\<close>

theorem expected_symmetric: "expected x i = expected (- x) i"
proof -
  have a: "norm_pdf (- x - 2) = norm_pdf (x + 2)"
    using norm_pdf_even [of "x + 2"] by simp
  have b: "norm_pdf (2 - x) = norm_pdf (x - 2)"
    using norm_pdf_even [of "x - 2"] by simp
  show ?thesis
    by (simp add: expected_def a b)
qed

section \<open>Properties of the file paths\<close>

lemma digit_char_value: "d < 10 \<Longrightarrow> (of_char (digit_char d) :: nat) - 48 = d"
  by (simp add: digit_char_def)

lemma digits_value_str_nat: "digits_value (str_nat n) = n"
proof (induction n rule: str_nat.induct)
  case (1 n)
  show ?case
  proof (cases "n < 10")
    case True
    then show ?thesis
      by (subst str_nat.simps) (simp add: digits_value_def digit_char_value)
  next
    case False
    have "n mod 10 < 10" by simp
    with False 1 show ?thesis
      by (subst str_nat.simps) (simp add: digits_value_def digit_char_value)
  qed
qed

lemma str_nat_inj: "str_nat m = str_nat n \<longleftrightarrow> m = n"
  by (metis digits_value_str_nat)

lemma digit_char_not_minus: "d < 10 \<Longrightarrow> digit_char d \<noteq> CHR ''-''"
  by (simp add: digit_char_def char_of_eq_iff take_bit_eq_mod)

lemma str_nat_no_minus: "CHR ''-'' \<notin> set (str_nat n)"
proof (induction n rule: str_nat.induct)
  case (1 n)
  show ?case
  proof (cases "n < 10")
    case True
    then show ?thesis
      using digit_char_not_minus [of n] by (subst str_nat.simps) auto
  next
    case False
    have "n mod 10 < 10" by simp
    then have "digit_char (n mod 10) \<noteq> CHR ''-''" by (rule digit_char_not_minus)
    with False 1 show ?thesis
      by (subst str_nat.simps) auto
  qed
qed

lemma str_nat_not_minus_cons: "str_nat n \<noteq> CHR ''-'' # s"
  using str_nat_no_minus [of n] by (metis list.set_intros(1))

lemma str_int_inj: "str_int i = str_int j \<longleftrightarrow> i = j"
proof
  assume eq: "str_int i = str_int j"
  show "i = j"
  proof (cases "i < 0")
    case True
    note i = this
    show ?thesis
    proof (cases "j < 0")
      case True
      with i eq have "nat (- i) = nat (- j)" by (simp add: str_int_def str_nat_inj)
      with i True show ?thesis by simp
    next
      case False
      with i eq show ?thesis
        using str_nat_not_minus_cons [of "nat j" "str_nat (nat (- i))"] by (simp add: str_int_def)
    qed
  next
    case False
    note i = this
    show ?thesis
    proof (cases "j < 0")
      case True
      with i eq show ?thesis
        using str_nat_not_minus_cons [of "nat i" "str_nat (nat (- j))"] by (simp add: str_int_def)
    next
      case False
      with i eq have "nat i = nat j" by (simp add: str_int_def str_nat_inj)
      with i False show ?thesis by simp
    qed
  qed
qed simp

text \<open>
  Claim C6: for every update count \<open>i\<close>, \<open>data_loc i\<close> is the experiment directory,
  then the experiment name with \<open>-pdf-\<close> (the literal \<open>basic-bimodal-pdf-\<close>), then the
  decimal rendering of \<open>i\<close>, then \<open>.out\<close>; and two update counts have the same path
  only when they are equal.
\<close>

theorem data_loc_template_injective:
  "data_loc i = dir @ name @ ''-pdf-'' @ str_int i @ ''.out''
   \<and> (data_loc i = data_loc j \<longleftrightarrow> i = j)"
  by (simp add: data_loc_def name_def str_int_inj)

section \<open>Properties of the checkpoint progressions\<close>

lemma upto_by_length:
  "0 < s \<Longrightarrow> length (upto_by c e s) = (if c \<le> e then nat ((e - c) div s + 1) else 0)"
proof (induction c e s rule: upto_by.induct)
  case (1 c e s)
  show ?case
  proof (cases "c \<le> e")
    case False
    then show ?thesis by (subst upto_by.simps) simp
  next
    case True
    have len: "length (upto_by c e s) = Suc (length (upto_by (c + s) e s))"
      using True "1.prems" by (subst upto_by.simps) simp
    have ih: "length (upto_by (c + s) e s) = (if c + s \<le> e then nat ((e - (c + s)) div s + 1) else 0)"
      using "1.IH" True "1.prems" by simp
    have split: "(e - c) div s = (e - (c + s)) div s + 1"
    proof -
      have "e - c = (e - (c + s)) + s" by simp
      then have "(e - c) div s = ((e - (c + s)) + s) div s" by (simp only:)
      also have "\<dots> = (e - (c + s)) div s + 1"
        using "1.prems" by (intro div_add_self2) simp
      finally show ?thesis .
    qed
    show ?thesis
    proof (cases "c + s \<le> e")
      case True
      then have "0 \<le> (e - (c + s)) div s"
        using "1.prems" by (simp add: pos_imp_zdiv_nonneg_iff)
      with True \<open>c \<le> e\<close> len ih split show ?thesis by simp
    next
      case False
      with \<open>c \<le> e\<close> "1.prems" have "(e - c) div s = 0"
        by (simp add: div_pos_pos_trivial)
      with False \<open>c \<le> e\<close> len ih show ?thesis by simp
    qed
  qed
qed

lemma upto_by_set:
  "0 < s \<Longrightarrow> set (upto_by c e s) = {x. \<exists>k::nat. x = c + int k * s \<and> x \<le> e}"
proof (induction c e s rule: upto_by.induct)
  case (1 c e s)
  show ?case
  proof (cases "c \<le> e")
    case False
    have "\<not> c + int k * s \<le> e" for k :: nat
    proof -
      have "c \<le> c + int k * s" using "1.prems" by simp
      with False show ?thesis by linarith
    qed
    then have "{x. \<exists>k::nat. x = c + int k * s \<and> x \<le> e} = {}" by auto
    with False show ?thesis by (subst upto_by.simps) simp
  next
    case True
    have ih: "set (upto_by (c + s) e s) = {x. \<exists>k::nat. x = c + s + int k * s \<and> x \<le> e}"
      using "1.IH" True "1.prems" by simp
    have "set (upto_by c e s) = insert c (set (upto_by (c + s) e s))"
      using True "1.prems" by (subst upto_by.simps) simp
    also have "\<dots> = {x. \<exists>k::nat. x = c + int k * s \<and> x \<le> e}" (is "?L = ?R")
    proof (rule set_eqI, rule iffI)
      fix x assume "x \<in> ?L"
      then consider "x = c" | k where "x = c + s + int k * s" "x \<le> e"
        using ih by auto
      then show "x \<in> ?R"
      proof cases
        case 1
        with True have "x = c + int 0 * s \<and> x \<le> e" by simp
        then show ?thesis by blast
      next
        case (2 k)
        then have "x = c + int (Suc k) * s \<and> x \<le> e" by (simp add: algebra_simps)
        then show ?thesis by blast
      qed
    next
      fix x assume "x \<in> ?R"
      then obtain k :: nat where k: "x = c + int k * s" "x \<le> e" by blast
      show "x \<in> ?L"
      proof (cases k)
        case 0
        with k show ?thesis by simp
      next
        case (Suc j)
        with k have "x = c + s + int j * s \<and> x \<le> e" by (simp add: algebra_simps)
        with ih show ?thesis by blast
      qed
    qed
    finally show ?thesis .
  qed
qed

lemma rearr_markers_set:
  "0 < rp \<Longrightarrow> set (rearr_markers rs rp cmin cmax) = marker_positions rs rp cmin cmax"
  by (auto simp: rearr_markers_def marker_positions_def upto_by_set)

lemma configured_markers: "rearr_markers 50 100 40 500 = [50, 150, 250, 350, 450]"
  by (simp add: rearr_markers_def upto_by.simps)

text \<open>
  Claim C2: with \<open>rearr_start = 50\<close>, \<open>rearr_period = 100\<close>, \<open>countmin = 40\<close> and
  \<open>countmax = 500\<close>, the marker positions \<open>rearr_start + k * rearr_period\<close>
  (\<open>k = 0, 1, 2, ...\<close>) within \<open>[countmin, countmax]\<close> are exactly 50, 150, 250, 350 and
  450; the renderer enumerates them in this order.
\<close>

theorem rearrangement_markers:
  "marker_positions rearr_start rearr_period countmin countmax = {50, 150, 250, 350, 450}
   \<and> rearr_markers rearr_start rearr_period countmin countmax = [50, 150, 250, 350, 450]"
proof -
  have "marker_positions 50 100 40 500 = set (rearr_markers 50 100 40 500)"
    by (simp add: rearr_markers_set)
  then show ?thesis
    by (simp add: configured_markers rearr_start_def rearr_period_def countmin_def countmax_def)
qed

lemma sweep_length: "length (upto_by start end_count step) = 50"
  by (simp add: upto_by_length start_def end_count_def step_def)

text \<open>
  Were the end bound left out of the sweep, as Python's own \<^verbatim>\<open>range\<close> does, there would
  be one checkpoint fewer.
\<close>

lemma half_open_sweep_length: "length (below_by start end_count step) = 49"
  by (simp add: below_by.simps start_def end_count_def step_def)

section \<open>Properties of the animation build\<close>

lemma load_samples_loadable:
  "loadable env path \<Longrightarrow> \<exists>d. load_samples env path = Inr d"
  by (cases "files env path") (simp_all add: loadable_def load_samples_def)

lemma load_samples_not_loadable:
  "\<not> loadable env path \<Longrightarrow>
     load_samples env path = Inl (MissingFile path) \<or> load_samples env path = Inl (MalformedFile path)"
  by (cases "files env path") (simp_all add: loadable_def load_samples_def)

lemma load_samples_Inr_loadable: "load_samples env path = Inr d \<Longrightarrow> loadable env path"
  by (cases "files env path") (simp_all add: loadable_def load_samples_def)

lemma load_samples_Inl:
  "load_samples env path = Inl e \<Longrightarrow>
     \<not> loadable env path \<and> (e = MissingFile path \<or> e = MalformedFile path)"
  by (cases "files env path") (auto simp: loadable_def load_samples_def)

lemma build_frames_complete:
  "(\<forall>c\<in>set cs. loadable env (loc c)) \<Longrightarrow> \<exists>frs. build_frames env sty loc f win cs = Inr frs"
proof (induction cs)
  case Nil
  show ?case by simp
next
  case (Cons c cs)
  then obtain d where d: "load_samples env (loc c) = Inr d"
    using load_samples_loadable [of env "loc c"] by auto
  from Cons obtain frs where "build_frames env sty loc f win cs = Inr frs" by auto
  with d show ?case by simp
qed

lemma build_frames_Inr:
  "build_frames env sty loc f win cs = Inr frs \<Longrightarrow>
     map frame_count frs = cs \<and> map frame_window frs = replicate (length cs) win
     \<and> map frame_style frs = replicate (length cs) sty"
proof (induction cs arbitrary: frs)
  case Nil
  then show ?case by auto
next
  case (Cons c cs)
  then show ?case
    by (auto split: sum.splits)
qed

lemma build_frames_Inl:
  "build_frames env sty loc f win cs = Inl e \<Longrightarrow>
     \<exists>c\<in>set cs. \<not> loadable env (loc c) \<and> (e = MissingFile (loc c) \<or> e = MalformedFile (loc c))"
proof (induction cs)
  case Nil
  then show ?case by simp
next
  case (Cons c cs)
  show ?case
  proof (cases "load_samples env (loc c)")
    case (Inl e')
    with Cons.prems have "e' = e" by simp
    with Inl show ?thesis using load_samples_Inl [of env "loc c" e] by auto
  next
    case (Inr d)
    with Cons.prems have "build_frames env sty loc f win cs = Inl e"
      by (simp split: sum.splits)
    with Cons.IH show ?thesis by auto
  qed
qed

lemma build_frames_aborts:
  assumes "c \<in> set cs" and "\<not> loadable env (loc c)"
  shows "\<exists>e. build_frames env sty loc f win cs = Inl e"
proof (cases "build_frames env sty loc f win cs")
  case (Inl e)
  then show ?thesis by simp
next
  case (Inr frs)
  have "\<forall>c\<in>set cs. loadable env (loc c)"
    using Inr
  proof (induction cs arbitrary: frs)
    case Nil
    show ?case by simp
  next
    case (Cons a cs)
    then show ?case
      by (auto split: sum.splits dest: load_samples_Inr_loadable)
  qed
  with assms show ?thesis by blast
qed

text \<open>
  Claim C4: when every checkpoint file of the sweep can be loaded, each animation variant
  gets exactly \<open>floor((500 - 10) / 10) + 1 = 50\<close> frames, one per checkpoint of the sweep
  from \<open>start = 10\<close> to \<open>end = 500\<close> in steps of 10, in order.
\<close>

theorem animation_sweep_frames:
  assumes "\<forall>c\<in>set (upto_by start end_count step). loadable env (data_loc c)"
  shows "\<exists>frs1 frs2.
    animated_pdfplot_errorbar env data_loc start end_count step expected xmin xmax ymin ymax = Inr frs1
    \<and> animated_pdfplot_bar env data_loc start end_count step expected xmin xmax ymin ymax = Inr frs2
    \<and> length frs1 = 50 \<and> length frs2 = 50
    \<and> map frame_count frs1 = upto_by start end_count step
    \<and> map frame_count frs2 = upto_by start end_count step
    \<and> (end_count - start) div step + 1 = 50"
proof -
  let ?win = "\<lparr>win_xmin = xmin, win_xmax = xmax, win_ymin = ymin, win_ymax = ymax\<rparr>"
  let ?cs = "upto_by start end_count step"
  obtain frs1 where f1: "build_frames env ErrorBars data_loc expected ?win ?cs = Inr frs1"
    using build_frames_complete [OF assms] by blast
  obtain frs2 where f2: "build_frames env Bars data_loc expected ?win ?cs = Inr frs2"
    using build_frames_complete [OF assms] by blast
  have c1: "map frame_count frs1 = ?cs" using build_frames_Inr [OF f1] by simp
  have c2: "map frame_count frs2 = ?cs" using build_frames_Inr [OF f2] by simp
  have "length (map frame_count frs1) = 50" by (simp only: c1 sweep_length)
  then have l1: "length frs1 = 50" by simp
  have "length (map frame_count frs2) = 50" by (simp only: c2 sweep_length)
  then have l2: "length frs2 = 50" by simp
  have n: "(end_count - start) div step + 1 = 50"
    by (simp add: start_def end_count_def step_def)
  show ?thesis
    using f1 f2 c1 c2 l1 l2 n
    by (simp add: animated_pdfplot_errorbar_def animated_pdfplot_bar_def)
qed

theorem animation_sweep_frames_witness:
  "\<exists>frs1 frs2.
    animated_pdfplot_errorbar \<lparr>files = \<lambda>p. Samples (), writable = \<lambda>p. True\<rparr>
        data_loc start end_count step expected xmin xmax ymin ymax = Inr frs1
    \<and> animated_pdfplot_bar \<lparr>files = \<lambda>p. Samples (), writable = \<lambda>p. True\<rparr>
        data_loc start end_count step expected xmin xmax ymin ymax = Inr frs2
    \<and> length frs1 = 50 \<and> length frs2 = 50"
proof -
  have "\<forall>c\<in>set (upto_by start end_count step).
          loadable \<lparr>files = \<lambda>p. Samples (), writable = \<lambda>p. True\<rparr> (data_loc c)"
    by (simp add: loadable_def)
  from animation_sweep_frames [OF this] show ?thesis by blast
qed

section \<open>The static figure\<close>

lemma annotation_a: "annotation 0 40 = ''(a) pdf at update count: 40''"
  by (simp add: annotation_def chr_def ord_def str_int_def str_nat.simps digit_char_def char_of_eq_iff)

lemma annotation_b: "annotation (Suc 0) 60 = ''(b) pdf at update count: 60''"
  by (simp add: annotation_def chr_def ord_def str_int_def str_nat.simps digit_char_def char_of_eq_iff)

lemma annotation_c: "annotation (Suc (Suc 0)) 340 = ''(c) pdf at update count: 340''"
  by (simp add: annotation_def chr_def ord_def str_int_def str_nat.simps digit_char_def char_of_eq_iff)

lemma loadable_Samples: "loadable env path \<Longrightarrow> \<exists>d. files env path = Samples d"
  by (cases "files env path") (simp_all add: loadable_def)

lemma length_data_counts: "length data_counts = 3"
  by (simp add: data_counts_def)

lemma density_panels_loaded:
  assumes "files env (data_loc 40) = Samples d1" and "files env (data_loc 60) = Samples d2"
    and "files env (data_loc 340) = Samples d3"
  shows "density_panels env (length data_counts) data_counts 0 initial_world =
      (None, initial_world\<lparr>panels :=
          [\<lparr>nrows = 1, ncols = 4, position = 1, title = ''(a) pdf at update count: 40'',
            drawing = Some (BarComparison expected d1
              \<lparr>win_xmin = - 5, win_xmax = 5, win_ymin = 0, win_ymax = 0.3\<rparr>)\<rparr>,
           \<lparr>nrows = 1, ncols = 4, position = 2, title = ''(b) pdf at update count: 60'',
            drawing = Some (BarComparison expected d2
              \<lparr>win_xmin = - 5, win_xmax = 5, win_ymin = 0, win_ymax = 0.3\<rparr>)\<rparr>,
           \<lparr>nrows = 1, ncols = 4, position = 3, title = ''(c) pdf at update count: 340'',
            drawing = Some (BarComparison expected d3
              \<lparr>win_xmin = - 5, win_xmax = 5, win_ymin = 0, win_ymax = 0.3\<rparr>)\<rparr>]\<rparr>)"
proof -
  have "density_panels env 3 [40, 60, 340] 0 initial_world =
      (None, initial_world\<lparr>panels :=
          [\<lparr>nrows = 1, ncols = 4, position = 1, title = ''(a) pdf at update count: 40'',
            drawing = Some (BarComparison expected d1
              \<lparr>win_xmin = - 5, win_xmax = 5, win_ymin = 0, win_ymax = 0.3\<rparr>)\<rparr>,
           \<lparr>nrows = 1, ncols = 4, position = 2, title = ''(b) pdf at update count: 60'',
            drawing = Some (BarComparison expected d2
              \<lparr>win_xmin = - 5, win_xmax = 5, win_ymin = 0, win_ymax = 0.3\<rparr>)\<rparr>,
           \<lparr>nrows = 1, ncols = 4, position = 3, title = ''(c) pdf at update count: 340'',
            drawing = Some (BarComparison expected d3
              \<lparr>win_xmin = - 5, win_xmax = 5, win_ymin = 0, win_ymax = 0.3\<rparr>)\<rparr>]\<rparr>)"
    by (simp add: annotation_a annotation_b annotation_c assms subplot_def set_title_def
        pdfplot_bar_def draw_def load_samples_def initial_world_def
        xmin_def xmax_def ymin_def ymax_def)
  then show ?thesis
    unfolding length_data_counts by (simp only: data_counts_def)
qed

lemma static_figure_loaded:
  assumes "files env (data_loc 40) = Samples d1" and "files env (data_loc 60) = Samples d2"
    and "files env (data_loc 340) = Samples d3" and "files env kld_data_loc = Samples dk"
  shows "static_figure env initial_world =
        (None, initial_world\<lparr>panels :=
          [\<lparr>nrows = 1, ncols = 4, position = 1, title = ''(a) pdf at update count: 40'',
            drawing = Some (BarComparison expected d1
              \<lparr>win_xmin = - 5, win_xmax = 5, win_ymin = 0, win_ymax = 0.3\<rparr>)\<rparr>,
           \<lparr>nrows = 1, ncols = 4, position = 2, title = ''(b) pdf at update count: 60'',
            drawing = Some (BarComparison expected d2
              \<lparr>win_xmin = - 5, win_xmax = 5, win_ymin = 0, win_ymax = 0.3\<rparr>)\<rparr>,
           \<lparr>nrows = 1, ncols = 4, position = 3, title = ''(c) pdf at update count: 340'',
            drawing = Some (BarComparison expected d3
              \<lparr>win_xmin = - 5, win_xmax = 5, win_ymin = 0, win_ymax = 0.3\<rparr>)\<rparr>,
           \<lparr>nrows = 1, ncols = 4, position = 4, title = ''(d) KL-divergence'',
            drawing = Some (DivergenceTrace dk 0.13 40 500 [50, 150, 250, 350, 450])\<rparr>]\<rparr>)"
  unfolding static_figure_def density_panels_loaded [OF assms(1,2,3)]
  by (simp add: length_data_counts kld_panel_def kldplot_def assms(4) subplot_def
      set_title_def draw_def load_samples_def initial_world_def configured_markers
      kld_max_def countmin_def countmax_def rearr_start_def rearr_period_def)

text \<open>
  Claim C3: with \<open>data_counts = [40, 60, 340]\<close> and every input file loadable, the static
  renderer finishes with a figure of exactly \<open>length data_counts + 1 = 4\<close> panels: one
  density comparison per checkpoint, in list order, with the titles
  \<open>(a) pdf at update count: 40\<close>, \<open>(b) pdf at update count: 60\<close> and
  \<open>(c) pdf at update count: 340\<close>, then the divergence panel, titled
  \<open>(d) KL-divergence\<close>.
\<close>

theorem static_figure_panels:
  assumes "\<forall>c\<in>set data_counts. loadable env (data_loc c)" and "loadable env kld_data_loc"
  shows "\<exists>d1 d2 d3 dk.
    files env (data_loc 40) = Samples d1 \<and> files env (data_loc 60) = Samples d2
    \<and> files env (data_loc 340) = Samples d3 \<and> files env kld_data_loc = Samples dk
    \<and> static_figure env initial_world =
        (None, initial_world\<lparr>panels :=
          [\<lparr>nrows = 1, ncols = 4, position = 1, title = ''(a) pdf at update count: 40'',
            drawing = Some (BarComparison expected d1
              \<lparr>win_xmin = - 5, win_xmax = 5, win_ymin = 0, win_ymax = 0.3\<rparr>)\<rparr>,
           \<lparr>nrows = 1, ncols = 4, position = 2, title = ''(b) pdf at update count: 60'',
            drawing = Some (BarComparison expected d2
              \<lparr>win_xmin = - 5, win_xmax = 5, win_ymin = 0, win_ymax = 0.3\<rparr>)\<rparr>,
           \<lparr>nrows = 1, ncols = 4, position = 3, title = ''(c) pdf at update count: 340'',
            drawing = Some (BarComparison expected d3
              \<lparr>win_xmin = - 5, win_xmax = 5, win_ymin = 0, win_ymax = 0.3\<rparr>)\<rparr>,
           \<lparr>nrows = 1, ncols = 4, position = 4, title = ''(d) KL-divergence'',
            drawing = Some (DivergenceTrace dk 0.13 40 500 [50, 150, 250, 350, 450])\<rparr>]\<rparr>)
    \<and> length (panels (snd (static_figure env initial_world))) = length data_counts + 1
    \<and> length data_counts + 1 = 4
    \<and> [annotation 0 40, annotation 1 60, annotation 2 340] =
        [''(a) pdf at update count: 40'', ''(b) pdf at update count: 60'',
         ''(c) pdf at update count: 340'']"
proof -
  from assms(1) have "loadable env (data_loc 40)" "loadable env (data_loc 60)"
    "loadable env (data_loc 340)"
    by (simp_all add: data_counts_def)
  then obtain d1 d2 d3 where d: "files env (data_loc 40) = Samples d1"
      "files env (data_loc 60) = Samples d2" "files env (data_loc 340) = Samples d3"
    using loadable_Samples by metis
  from assms(2) obtain dk where dk: "files env kld_data_loc = Samples dk"
    using loadable_Samples by metis
  note st = static_figure_loaded [OF d dk]
  have "length (panels (snd (static_figure env initial_world))) = length data_counts + 1"
    by (simp add: st length_data_counts)
  moreover have "length data_counts + 1 = 4"
    by (simp add: length_data_counts)
  moreover have "[annotation 0 40, annotation 1 60, annotation 2 340] =
        [''(a) pdf at update count: 40'', ''(b) pdf at update count: 60'',
         ''(c) pdf at update count: 340'']"
    using annotation_a annotation_b annotation_c by (simp add: eval_nat_numeral)
  ultimately show ?thesis
    using d dk st by blast
qed

theorem static_figure_panels_witness:
  "map title (panels (snd (static_figure \<lparr>files = \<lambda>p. Samples (), writable = \<lambda>p. True\<rparr>
      initial_world)))
   = [''(a) pdf at update count: 40'', ''(b) pdf at update count: 60'',
      ''(c) pdf at update count: 340'', ''(d) KL-divergence'']"
proof -
  let ?env = "\<lparr>files = \<lambda>p. Samples (), writable = \<lambda>p. True\<rparr>"
  have a: "\<forall>c\<in>set data_counts. loadable ?env (data_loc c)"
    by (simp add: loadable_def)
  have b: "loadable ?env kld_data_loc"
    by (simp add: loadable_def)
  from static_figure_panels [OF a b] show ?thesis
    by auto
qed

section \<open>The files a run writes\<close>

lemma subplot_written: "written (snd (subplot r c k w)) = written w"
  by (simp add: subplot_def)

lemma set_title_written: "written (set_title ax t w) = written w"
  by (simp add: set_title_def)

lemma draw_written: "written (draw ax g w) = written w"
  by (simp add: draw_def)

lemma pdfplot_bar_written:
  "written (snd (pdfplot_bar env ax f path x0 x1 y0 y1 w)) = written w"
  by (simp add: pdfplot_bar_def draw_written split: sum.splits)

lemma kldplot_written:
  "written (snd (kldplot env ax path cap cmin cmax rs rp w)) = written w"
  by (simp add: kldplot_def draw_written split: sum.splits)

lemma density_panels_written:
  "written (snd (density_panels env n cs i w)) = written w"
proof (induction cs arbitrary: i w)
  case Nil
  show ?case by simp
next
  case (Cons c cs)
  obtain ax w1 where s: "subplot 1 (n + 1) (i + 1) w = (ax, w1)"
    by (cases "subplot 1 (n + 1) (i + 1) w")
  then have w1: "written w1 = written w"
    using subplot_written [of 1 "n + 1" "i + 1" w] by simp
  obtain r w2 where p: "pdfplot_bar env ax expected (data_loc c) xmin xmax ymin ymax
      (set_title ax (annotation i c) w1) = (r, w2)"
    by (cases "pdfplot_bar env ax expected (data_loc c) xmin xmax ymin ymax
      (set_title ax (annotation i c) w1)")
  then have w2: "written w2 = written w"
    using pdfplot_bar_written [of env ax expected "data_loc c" xmin xmax ymin ymax
        "set_title ax (annotation i c) w1"] w1
    by (simp add: set_title_written)
  show ?case
  proof (cases r)
    case None
    with s p w2 Cons.IH [of "i + 1" w2] show ?thesis by simp
  next
    case (Some e)
    with s p w2 show ?thesis by simp
  qed
qed

lemma kld_panel_written: "written (snd (kld_panel env w)) = written w"
proof -
  obtain ax w1 where s: "subplot 1 (length data_counts + 1) (length data_counts + 1) w = (ax, w1)"
    by (cases "subplot 1 (length data_counts + 1) (length data_counts + 1) w")
  then have "written w1 = written w"
    using subplot_written [of 1 "length data_counts + 1" "length data_counts + 1" w] by simp
  with s show ?thesis
    by (simp add: kld_panel_def kldplot_written set_title_written)
qed

lemma static_figure_written: "written (snd (static_figure env w)) = written w"
proof (cases "density_panels env (length data_counts) data_counts 0 w")
  case (Pair r w1)
  then have "written w1 = written w"
    using density_panels_written [of env "length data_counts" data_counts 0 w] by simp
  with Pair show ?thesis
    by (cases r) (simp_all add: static_figure_def kld_panel_written)
qed

lemma save_plot_written_cases:
  "map fst (written (snd (save_plot env w))) \<in>
     {map fst (written w), map fst (written w) @ [name @ ''.pdf''],
      map fst (written w) @ [name @ ''.pdf'', name @ ''.png'']}"
  by (simp add: save_plot_def savefig_def write_file_def)

lemma save_plot_written_complete:
  "fst (save_plot env w) = None \<Longrightarrow>
     map fst (written (snd (save_plot env w))) =
       map fst (written w) @ [name @ ''.pdf'', name @ ''.png'']"
  by (simp add: save_plot_def savefig_def write_file_def split: if_splits)

lemma animation1_written_complete:
  "fst (animation1 env w) = None \<Longrightarrow>
     map fst (written (snd (animation1 env w))) = map fst (written w) @ [name @ ''-errorbar.gif'']"
  by (simp add: animation1_def write_file_def split: sum.splits if_splits)

lemma animation2_written_complete:
  "fst (animation2 env w) = None \<Longrightarrow>
     map fst (written (snd (animation2 env w))) = map fst (written w) @ [name @ ''-histo.gif'']"
  by (simp add: animation2_def write_file_def split: sum.splits if_splits)

lemma animations_written_complete:
  assumes "fst (animations env w) = None"
  shows "map fst (written (snd (animations env w))) =
           map fst (written w) @ [name @ ''-errorbar.gif'', name @ ''-histo.gif'']"
proof (cases "animation1 env w")
  case (Pair r w1)
  with assms have r: "r = None" and a2: "fst (animation2 env w1) = None"
    and eq: "animations env w = animation2 env w1"
    by (cases r; simp add: animations_def)+
  from Pair r have "map fst (written w1) = map fst (written w) @ [name @ ''-errorbar.gif'']"
    using animation1_written_complete [of env w] by simp
  with animation2_written_complete [OF a2] eq show ?thesis by simp
qed

text \<open>
  Claim C8: a run that completes has written exactly four files, named by the experiment
  name and a suffix: \<open>basic-bimodal.pdf\<close> and \<open>basic-bimodal.png\<close> for the static
  figure, then \<open>basic-bimodal-errorbar.gif\<close> and \<open>basic-bimodal-histo.gif\<close> for the
  animations.
\<close>

theorem complete_run_outputs:
  assumes "fst (main env) = None"
  shows "map fst (written (snd (main env))) =
           [name @ ''.pdf'', name @ ''.png'', name @ ''-errorbar.gif'', name @ ''-histo.gif'']
         \<and> map fst (written (snd (main env))) =
           [''basic-bimodal.pdf'', ''basic-bimodal.png'', ''basic-bimodal-errorbar.gif'',
            ''basic-bimodal-histo.gif'']
         \<and> distinct (map fst (written (snd (main env))))
         \<and> length (written (snd (main env))) = 4"
proof -
  obtain r1 w1 where s1: "static_figure env initial_world = (r1, w1)"
    by (cases "static_figure env (initial_world :: 'a world)")
  with assms have r1: "r1 = None"
    by (cases r1) (simp_all add: main_def)
  have w1: "written w1 = []"
    using static_figure_written [of env initial_world] s1 by (simp add: initial_world_def)
  obtain r2 w2 where s2: "save_plot env w1 = (r2, w2)"
    by (cases "save_plot env w1")
  with assms s1 r1 have r2: "r2 = None"
    by (cases r2) (simp_all add: main_def)
  have w2: "map fst (written w2) = [name @ ''.pdf'', name @ ''.png'']"
    using save_plot_written_complete [of env w1] s2 r2 w1 by simp
  have m: "main env = animations env w2"
    using s1 r1 s2 r2 by (simp add: main_def)
  with assms have "fst (animations env w2) = None" by simp
  from animations_written_complete [OF this] w2 m
  have eq: "map fst (written (snd (main env))) =
           [name @ ''.pdf'', name @ ''.png'', name @ ''-errorbar.gif'', name @ ''-histo.gif'']"
    by simp
  have "length (map fst (written (snd (main env)))) = 4"
    by (simp only: eq) simp
  then have "length (written (snd (main env))) = 4" by simp
  with eq show ?thesis
    by (simp add: name_def)
qed

section \<open>Runs that complete\<close>

lemma pdfplot_bar_completes:
  "loadable env path \<Longrightarrow> fst (pdfplot_bar env ax f path x0 x1 y0 y1 w) = None"
  using load_samples_loadable [of env path] by (auto simp: pdfplot_bar_def)

lemma kldplot_completes:
  "loadable env path \<Longrightarrow> fst (kldplot env ax path cap cmin cmax rs rp w) = None"
  using load_samples_loadable [of env path] by (auto simp: kldplot_def)

lemma density_panels_completes:
  "(\<forall>c\<in>set cs. loadable env (data_loc c)) \<Longrightarrow> fst (density_panels env n cs i w) = None"
proof (induction cs arbitrary: i w)
  case Nil
  show ?case by simp
next
  case (Cons c cs)
  obtain ax w1 where s: "subplot 1 (n + 1) (i + 1) w = (ax, w1)"
    by (cases "subplot 1 (n + 1) (i + 1) w")
  obtain r w2 where p: "pdfplot_bar env ax expected (data_loc c) xmin xmax ymin ymax
      (set_title ax (annotation i c) w1) = (r, w2)"
    by (cases "pdfplot_bar env ax expected (data_loc c) xmin xmax ymin ymax
      (set_title ax (annotation i c) w1)")
  from Cons.prems have "loadable env (data_loc c)" by simp
  from pdfplot_bar_completes [OF this, of ax expected xmin xmax ymin ymax
      "set_title ax (annotation i c) w1"] p
  have "r = None" by simp
  with s p Cons.IH [of "i + 1" w2] Cons.prems show ?case by simp
qed

lemma static_figure_completes:
  assumes "\<forall>c\<in>set data_counts. loadable env (data_loc c)" and "loadable env kld_data_loc"
  shows "fst (static_figure env w) = None"
proof (cases "density_panels env (length data_counts) data_counts 0 w")
  case (Pair r w1)
  with density_panels_completes [OF assms(1), of "length data_counts" 0 w]
  have "r = None" by simp
  with Pair show ?thesis
    by (simp add: static_figure_def kld_panel_def subplot_def kldplot_completes [OF assms(2)])
qed

lemma save_plot_completes:
  "writable env (name @ ''.pdf'') \<Longrightarrow> writable env (name @ ''.png'') \<Longrightarrow>
     fst (save_plot env w) = None"
  by (simp add: save_plot_def savefig_def write_file_def)

lemma animations_completes:
  assumes "\<forall>c\<in>set (upto_by start end_count step). loadable env (data_loc c)"
    and "writable env (name @ ''-errorbar.gif'')" and "writable env (name @ ''-histo.gif'')"
  shows "fst (animations env w) = None"
proof -
  let ?win = "\<lparr>win_xmin = xmin, win_xmax = xmax, win_ymin = ymin, win_ymax = ymax\<rparr>"
  let ?cs = "upto_by start end_count step"
  obtain frs1 where f1: "build_frames env ErrorBars data_loc expected ?win ?cs = Inr frs1"
    using build_frames_complete [OF assms(1)] by blast
  obtain frs2 where f2: "build_frames env Bars data_loc expected ?win ?cs = Inr frs2"
    using build_frames_complete [OF assms(1)] by blast
  show ?thesis
    using f1 f2 assms(2,3)
    by (simp add: animations_def animation1_def animation2_def write_file_def
        animated_pdfplot_errorbar_def animated_pdfplot_bar_def)
qed

lemma main_completes:
  assumes "\<forall>c\<in>set data_counts. loadable env (data_loc c)" and "loadable env kld_data_loc"
    and "\<forall>c\<in>set (upto_by start end_count step). loadable env (data_loc c)"
    and "\<forall>p. writable env p"
  shows "fst (main env) = None"
proof -
  obtain r1 w1 where s1: "static_figure env initial_world = (r1, w1)"
    by (cases "static_figure env (initial_world :: 'a world)")
  with static_figure_completes [OF assms(1,2), of initial_world] have r1: "r1 = None" by simp
  obtain r2 w2 where s2: "save_plot env w1 = (r2, w2)"
    by (cases "save_plot env w1")
  with save_plot_completes [of env w1] assms(4) have r2: "r2 = None" by simp
  have "fst (animations env w2) = None"
    using animations_completes [OF assms(3)] assms(4) by simp
  with s1 r1 s2 r2 show ?thesis by (simp add: main_def)
qed

theorem complete_run_outputs_witness:
  "fst (main \<lparr>files = \<lambda>p. Samples (), writable = \<lambda>p. True\<rparr>) = None
   \<and> map fst (written (snd (main \<lparr>files = \<lambda>p. Samples (), writable = \<lambda>p. True\<rparr>))) =
       [''basic-bimodal.pdf'', ''basic-bimodal.png'', ''basic-bimodal-errorbar.gif'',
        ''basic-bimodal-histo.gif'']"
proof -
  have n: "fst (main \<lparr>files = \<lambda>p. Samples (), writable = \<lambda>p. True\<rparr>) = None"
    by (rule main_completes) (simp_all add: loadable_def)
  from complete_run_outputs [OF n] n show ?thesis by blast
qed

section \<open>Runs that abort\<close>

lemma save_plot_written_prefix:
  "written w = [] \<Longrightarrow> fst (save_plot env w) \<noteq> None \<Longrightarrow>
     map fst (written (snd (save_plot env w))) \<in> {[], [name @ ''.pdf'']}"
  by (simp add: save_plot_def savefig_def write_file_def split: if_splits)

text \<open>
  Claim C9: if some checkpoint file of the animation sweep is missing or malformed, each
  animation build ends with the load error of such a file instead of a shorter frame list,
  the animation stage ends the run with that load error and leaves the state as it was,
  and the whole run fails having written at most the two files of the static figure: no
  \<open>.gif\<close> file is written.
\<close>

theorem missing_checkpoint_aborts:
  assumes "c \<in> set (upto_by start end_count step)" and "\<not> loadable env (data_loc c)"
  shows "(\<exists>c'\<in>set (upto_by start end_count step). \<not> loadable env (data_loc c')
            \<and> animated_pdfplot_errorbar env data_loc start end_count step expected
                 xmin xmax ymin ymax
               \<in> {Inl (MissingFile (data_loc c')), Inl (MalformedFile (data_loc c'))})
       \<and> (\<exists>c'\<in>set (upto_by start end_count step). \<not> loadable env (data_loc c')
            \<and> animated_pdfplot_bar env data_loc start end_count step expected
                 xmin xmax ymin ymax
               \<in> {Inl (MissingFile (data_loc c')), Inl (MalformedFile (data_loc c'))})
       \<and> (\<exists>e. animations env w = (Some e, w) \<and> is_load_error e)
       \<and> (\<exists>e. fst (main env) = Some e)
       \<and> map fst (written (snd (main env)))
            \<in> {[], [name @ ''.pdf''], [name @ ''.pdf'', name @ ''.png'']}
       \<and> name @ ''-errorbar.gif'' \<notin> set (map fst (written (snd (main env))))
       \<and> name @ ''-histo.gif'' \<notin> set (map fst (written (snd (main env))))"
proof -
  let ?win = "\<lparr>win_xmin = xmin, win_xmax = xmax, win_ymin = ymin, win_ymax = ymax\<rparr>"
  let ?cs = "upto_by start end_count step"
  obtain e1 where e1: "build_frames env ErrorBars data_loc expected ?win ?cs = Inl e1"
    using build_frames_aborts [where loc = data_loc, OF assms] by blast
  obtain e2 where e2: "build_frames env Bars data_loc expected ?win ?cs = Inl e2"
    using build_frames_aborts [where loc = data_loc, OF assms] by blast
  have a: "\<exists>c'\<in>set ?cs. \<not> loadable env (data_loc c')
            \<and> animated_pdfplot_errorbar env data_loc start end_count step expected
                 xmin xmax ymin ymax
               \<in> {Inl (MissingFile (data_loc c')), Inl (MalformedFile (data_loc c'))}"
    using build_frames_Inl [OF e1] e1 by (auto simp: animated_pdfplot_errorbar_def)
  have b: "\<exists>c'\<in>set ?cs. \<not> loadable env (data_loc c')
            \<and> animated_pdfplot_bar env data_loc start end_count step expected
                 xmin xmax ymin ymax
               \<in> {Inl (MissingFile (data_loc c')), Inl (MalformedFile (data_loc c'))}"
    using build_frames_Inl [OF e2] e2 by (auto simp: animated_pdfplot_bar_def)
  have le1: "is_load_error e1"
    using build_frames_Inl [OF e1] by auto
  have anim: "animations env v = (Some e1, v)" for v :: "'a world"
    using e1 by (simp add: animations_def animation1_def animated_pdfplot_errorbar_def)
  have c: "\<exists>e. animations env w = (Some e, w) \<and> is_load_error e"
    using anim le1 by blast
  obtain r1 w1 where s1: "static_figure env initial_world = (r1, w1)"
    by (cases "static_figure env (initial_world :: 'a world)")
  have w1: "written w1 = []"
    using static_figure_written [of env initial_world] s1 by (simp add: initial_world_def)
  obtain r2 w2 where s2: "save_plot env w1 = (r2, w2)"
    by (cases "save_plot env w1")
  have d: "(\<exists>e. fst (main env) = Some e)
       \<and> map fst (written (snd (main env)))
            \<in> {[], [name @ ''.pdf''], [name @ ''.pdf'', name @ ''.png'']}"
  proof (cases r1)
    case (Some e)
    with s1 w1 show ?thesis by (simp add: main_def)
  next
    case None
    note r1 = this
    show ?thesis
    proof (cases r2)
      case (Some e)
      with s2 have "fst (save_plot env w1) \<noteq> None" by simp
      from save_plot_written_prefix [OF w1 this] s1 r1 s2 Some show ?thesis
        by (auto simp: main_def)
    next
      case None
      with s2 have "fst (save_plot env w1) = None" by simp
      from save_plot_written_complete [OF this] w1 s2
      have "map fst (written w2) = [name @ ''.pdf'', name @ ''.png'']" by simp
      with s1 r1 s2 None anim [of w2] show ?thesis
        by (simp add: main_def)
    qed
  qed
  then have e: "name @ ''-errorbar.gif'' \<notin> set (map fst (written (snd (main env))))
       \<and> name @ ''-histo.gif'' \<notin> set (map fst (written (snd (main env))))"
    by (auto simp: name_def)
  from a b c d e show ?thesis by blast
qed

lemma mid_sweep: "250 \<in> set (upto_by start end_count step)"
proof -
  have "(250::int) = 10 + int 24 * 10 \<and> (250::int) \<le> 500" by simp
  then show ?thesis
    unfolding start_def end_count_def step_def
    by (subst upto_by_set) (simp, blast)
qed

theorem missing_checkpoint_aborts_witness:
  "(\<exists>e. animations \<lparr>files = \<lambda>p. if p = data_loc 250 then Missing else Samples (),
                     writable = \<lambda>p. True\<rparr> initial_world = (Some e, initial_world)
        \<and> is_load_error e)
   \<and> (\<exists>e. fst (main \<lparr>files = \<lambda>p. if p = data_loc 250 then Missing else Samples (),
                     writable = \<lambda>p. True\<rparr>) = Some e)
   \<and> map fst (written (snd (main \<lparr>files = \<lambda>p. if p = data_loc 250 then Missing else Samples (),
                     writable = \<lambda>p. True\<rparr>)))
        \<in> {[], [name @ ''.pdf''], [name @ ''.pdf'', name @ ''.png'']}"
proof -
  let ?env = "\<lparr>files = \<lambda>p. if p = data_loc 250 then Missing else Samples (),
                     writable = \<lambda>p. True\<rparr>"
  have "\<not> loadable ?env (data_loc 250)"
    by (simp add: loadable_def)
  from missing_checkpoint_aborts [OF mid_sweep this, of initial_world] show ?thesis
    by blast
qed

section \<open>The axis bounds of the render calls\<close>

lemma map_update_same: "f y = f (xs ! k) \<Longrightarrow> map f (xs[k := y]) = map f xs"
proof (induction xs arbitrary: k)
  case Nil
  show ?case by simp
next
  case (Cons x xs)
  then show ?case by (cases k) simp_all
qed

lemma set_concat_map_update:
  "set (concat (map f (xs[k := y]))) \<subseteq> set (f y) \<union> set (concat (map f xs))"
proof -
  have "set (xs[k := y]) \<subseteq> insert y (set xs)"
    by (rule set_update_subset_insert)
  then show ?thesis by auto
qed

lemma render_windows_subplot: "render_windows (snd (subplot r c k w)) = render_windows w"
  by (simp add: render_windows_def subplot_def)

lemma render_windows_set_title: "render_windows (set_title ax t w) = render_windows w"
  by (simp add: render_windows_def set_title_def map_update_same)

lemma render_windows_draw:
  "set (render_windows (draw ax g w)) \<subseteq> set (drawing_windows (Some g)) \<union> set (render_windows w)"
  using set_concat_map_update [of "\<lambda>p. drawing_windows (drawing p)" "panels w" ax
      "(panels w ! ax)\<lparr>drawing := Some g\<rparr>"]
  by (auto simp: render_windows_def draw_def)

lemma render_windows_pdfplot_bar:
  "set (render_windows (snd (pdfplot_bar env ax f path x0 x1 y0 y1 w)))
     \<subseteq> insert \<lparr>win_xmin = x0, win_xmax = x1, win_ymin = y0, win_ymax = y1\<rparr>
         (set (render_windows w))"
proof (cases "load_samples env path")
  case (Inl e)
  then show ?thesis by (auto simp: pdfplot_bar_def)
next
  case (Inr d)
  then show ?thesis
    using render_windows_draw [of ax "BarComparison f d
        \<lparr>win_xmin = x0, win_xmax = x1, win_ymin = y0, win_ymax = y1\<rparr>" w]
    by (auto simp: pdfplot_bar_def)
qed

lemma render_windows_kldplot:
  "set (render_windows (snd (kldplot env ax path cap cmin cmax rs rp w)))
     \<subseteq> set (render_windows w)"
proof (cases "load_samples env path")
  case (Inl e)
  then show ?thesis by (auto simp: kldplot_def)
next
  case (Inr d)
  then show ?thesis
    using render_windows_draw [of ax "DivergenceTrace d cap cmin cmax (rearr_markers rs rp cmin cmax)" w]
    by (auto simp: kldplot_def)
qed

lemma render_windows_density_panels:
  "set (render_windows (snd (density_panels env n cs i w)))
     \<subseteq> insert \<lparr>win_xmin = xmin, win_xmax = xmax, win_ymin = ymin, win_ymax = ymax\<rparr>
         (set (render_windows w))"
proof (induction cs arbitrary: i w)
  case Nil
  show ?case by auto
next
  case (Cons c cs)
  let ?W = "\<lparr>win_xmin = xmin, win_xmax = xmax, win_ymin = ymin, win_ymax = ymax\<rparr>"
  obtain ax w1 where s: "subplot 1 (n + 1) (i + 1) w = (ax, w1)"
    by (cases "subplot 1 (n + 1) (i + 1) w")
  then have w1: "render_windows w1 = render_windows w"
    using render_windows_subplot [of 1 "n + 1" "i + 1" w] by simp
  obtain r w2 where p: "pdfplot_bar env ax expected (data_loc c) xmin xmax ymin ymax
      (set_title ax (annotation i c) w1) = (r, w2)"
    by (cases "pdfplot_bar env ax expected (data_loc c) xmin xmax ymin ymax
      (set_title ax (annotation i c) w1)")
  have w2: "set (render_windows w2) \<subseteq> insert ?W (set (render_windows w))"
    using render_windows_pdfplot_bar [of env ax expected "data_loc c" xmin xmax ymin ymax
        "set_title ax (annotation i c) w1"] p w1
    by (simp add: render_windows_set_title)
  show ?case
  proof (cases r)
    case None
    have "set (render_windows (snd (density_panels env n cs (i + 1) w2)))
        \<subseteq> insert ?W (set (render_windows w2))"
      by (rule Cons.IH)
    with w2 have "set (render_windows (snd (density_panels env n cs (i + 1) w2)))
        \<subseteq> insert ?W (set (render_windows w))"
      by blast
    with s p None show ?thesis by simp
  next
    case (Some e)
    with s p w2 show ?thesis by simp
  qed
qed

lemma render_windows_kld_panel:
  "set (render_windows (snd (kld_panel env w))) \<subseteq> set (render_windows w)"
proof -
  obtain ax w1 where s: "subplot 1 (length data_counts + 1) (length data_counts + 1) w = (ax, w1)"
    by (cases "subplot 1 (length data_counts + 1) (length data_counts + 1) w")
  then have w1: "render_windows w1 = render_windows w"
    using render_windows_subplot [of 1 "length data_counts + 1" "length data_counts + 1" w]
    by simp
  show ?thesis
    using render_windows_kldplot [of env ax kld_data_loc kld_max countmin countmax
        rearr_start rearr_period "set_title ax ''(d) KL-divergence'' w1"] s w1
    by (simp add: kld_panel_def render_windows_set_title)
qed

lemma render_windows_static_figure:
  "set (render_windows (snd (static_figure env w)))
     \<subseteq> insert \<lparr>win_xmin = xmin, win_xmax = xmax, win_ymin = ymin, win_ymax = ymax\<rparr>
         (set (render_windows w))"
proof (cases "density_panels env (length data_counts) data_counts 0 w")
  case (Pair r w1)
  let ?W = "\<lparr>win_xmin = xmin, win_xmax = xmax, win_ymin = ymin, win_ymax = ymax\<rparr>"
  have w1: "set (render_windows w1) \<subseteq> insert ?W (set (render_windows w))"
    using render_windows_density_panels [of env "length data_counts" data_counts 0 w] Pair
    by simp
  show ?thesis
  proof (cases r)
    case None
    with Pair w1 render_windows_kld_panel [of env w1] show ?thesis
      by (auto simp: static_figure_def)
  next
    case (Some e)
    with Pair w1 show ?thesis by (simp add: static_figure_def)
  qed
qed

lemma render_windows_save_plot: "render_windows (snd (save_plot env w)) = render_windows w"
  by (simp add: save_plot_def savefig_def write_file_def render_windows_def)

lemma render_windows_write_file:
  "render_windows (snd (write_file env path a w)) = render_windows w"
  by (simp add: write_file_def render_windows_def)

lemma render_windows_animation1:
  "set (render_windows (snd (animation1 env w)))
     \<subseteq> insert \<lparr>win_xmin = xmin, win_xmax = xmax, win_ymin = ymin, win_ymax = ymax\<rparr>
         (set (render_windows w))"
proof (cases "animated_pdfplot_errorbar env data_loc start end_count step expected
             xmin xmax ymin ymax")
  case (Inl e)
  then show ?thesis by (auto simp: animation1_def)
next
  case (Inr frs)
  then have "map frame_window frs = replicate (length (upto_by start end_count step))
      \<lparr>win_xmin = xmin, win_xmax = xmax, win_ymin = ymin, win_ymax = ymax\<rparr>"
    using build_frames_Inr by (simp add: animated_pdfplot_errorbar_def) blast
  with Inr show ?thesis
    by (auto simp: animation1_def render_windows_write_file) (auto simp: render_windows_def)
qed

lemma render_windows_animation2:
  "set (render_windows (snd (animation2 env w)))
     \<subseteq> insert \<lparr>win_xmin = xmin, win_xmax = xmax, win_ymin = ymin, win_ymax = ymax\<rparr>
         (set (render_windows w))"
proof (cases "animated_pdfplot_bar env data_loc start end_count step expected
             xmin xmax ymin ymax")
  case (Inl e)
  then show ?thesis by (auto simp: animation2_def)
next
  case (Inr frs)
  then have "map frame_window frs = replicate (length (upto_by start end_count step))
      \<lparr>win_xmin = xmin, win_xmax = xmax, win_ymin = ymin, win_ymax = ymax\<rparr>"
    using build_frames_Inr by (simp add: animated_pdfplot_bar_def) blast
  with Inr show ?thesis
    by (auto simp: animation2_def render_windows_write_file) (auto simp: render_windows_def)
qed

lemma render_windows_animations:
  "set (render_windows (snd (animations env w)))
     \<subseteq> insert \<lparr>win_xmin = xmin, win_xmax = xmax, win_ymin = ymin, win_ymax = ymax\<rparr>
         (set (render_windows w))"
proof (cases "animation1 env w")
  case (Pair r w1)
  with render_windows_animation1 [of env w] have w1:
    "set (render_windows w1)
       \<subseteq> insert \<lparr>win_xmin = xmin, win_xmax = xmax, win_ymin = ymin, win_ymax = ymax\<rparr>
           (set (render_windows w))"
    by simp
  show ?thesis
  proof (cases r)
    case None
    with Pair w1 render_windows_animation2 [of env w1] show ?thesis
      by (auto simp: animations_def)
  next
    case (Some e)
    with Pair w1 show ?thesis by (simp add: animations_def)
  qed
qed

lemma render_windows_main:
  "set (render_windows (snd (main env)))
     \<subseteq> {\<lparr>win_xmin = xmin, win_xmax = xmax, win_ymin = ymin, win_ymax = ymax\<rparr>}"
proof -
  let ?W = "\<lparr>win_xmin = xmin, win_xmax = xmax, win_ymin = ymin, win_ymax = ymax\<rparr>"
  obtain r1 w1 where s1: "static_figure env initial_world = (r1, w1)"
    by (cases "static_figure env (initial_world :: 'a world)")
  have w1: "set (render_windows w1) \<subseteq> {?W}"
    using render_windows_static_figure [of env initial_world] s1
    by (simp add: render_windows_def initial_world_def)
  obtain r2 w2 where s2: "save_plot env w1 = (r2, w2)"
    by (cases "save_plot env w1")
  have w2: "render_windows w2 = render_windows w1"
    using render_windows_save_plot [of env w1] s2 by simp
  have w3: "set (render_windows (snd (animations env w2))) \<subseteq> {?W}"
    using render_windows_animations [of env w2] w1 w2 by auto
  show ?thesis
  proof (cases r1)
    case (Some e)
    with s1 w1 show ?thesis by (simp add: main_def)
  next
    case None
    note r1 = this
    show ?thesis
    proof (cases r2)
      case (Some e)
      with s1 r1 s2 w1 w2 show ?thesis by (simp add: main_def)
    next
      case None
      with s1 r1 s2 w3 show ?thesis by (simp add: main_def)
    qed
  qed
qed

text \<open>
  Claim C7: whatever the environment, every density panel of the static figure and every
  frame of either animation variant has been rendered with the same four axis bounds,
  \<open>xmin = -5\<close>, \<open>xmax = 5\<close>, \<open>ymin = 0\<close> and \<open>ymax = 0.3\<close>.
\<close>

theorem uniform_axis_bounds:
  "\<forall>win\<in>set (render_windows (snd (main env))).
     win = \<lparr>win_xmin = - 5, win_xmax = 5, win_ymin = 0, win_ymax = 0.3\<rparr>"
  using render_windows_main [of env] by (auto simp: xmin_def xmax_def ymin_def ymax_def)


lemma panels_save_plot: "panels (snd (save_plot env w)) = panels w"
  by (simp add: save_plot_def savefig_def write_file_def)

lemma panels_animations: "panels (snd (animations env w)) = panels w"
  by (simp add: animations_def animation1_def animation2_def write_file_def
      split: sum.splits)

lemma panels_main:
  "static_figure env initial_world = (None, w1) \<Longrightarrow> panels (snd (main env)) = panels w1"
proof -
  assume s1: "static_figure env initial_world = (None, w1)"
  obtain r2 w2 where s2: "save_plot env w1 = (r2, w2)"
    by (cases "save_plot env w1")
  then have w2: "panels w2 = panels w1"
    using panels_save_plot [of env w1] by simp
  show ?thesis
  proof (cases r2)
    case None
    with s1 s2 w2 show ?thesis by (simp add: main_def panels_animations)
  next
    case (Some e)
    with s1 s2 w2 show ?thesis by (simp add: main_def)
  qed
qed

theorem uniform_axis_bounds_witness:
  "set (render_windows (snd (main \<lparr>files = \<lambda>p. Samples (), writable = \<lambda>p. True\<rparr>)))
     = {\<lparr>win_xmin = - 5, win_xmax = 5, win_ymin = 0, win_ymax = 0.3\<rparr>}"
proof -
  let ?env = "\<lparr>files = \<lambda>p. Samples (), writable = \<lambda>p. True\<rparr>"
  let ?W = "\<lparr>win_xmin = - 5, win_xmax = 5, win_ymin = 0, win_ymax = 0.3\<rparr>"
  have st: "static_figure ?env initial_world =
      (None, initial_world\<lparr>panels :=
          [\<lparr>nrows = 1, ncols = 4, position = 1, title = ''(a) pdf at update count: 40'',
            drawing = Some (BarComparison expected () ?W)\<rparr>,
           \<lparr>nrows = 1, ncols = 4, position = 2, title = ''(b) pdf at update count: 60'',
            drawing = Some (BarComparison expected () ?W)\<rparr>,
           \<lparr>nrows = 1, ncols = 4, position = 3, title = ''(c) pdf at update count: 340'',
            drawing = Some (BarComparison expected () ?W)\<rparr>,
           \<lparr>nrows = 1, ncols = 4, position = 4, title = ''(d) KL-divergence'',
            drawing = Some (DivergenceTrace () 0.13 40 500 [50, 150, 250, 350, 450])\<rparr>]\<rparr>)"
    by (rule static_figure_loaded) simp_all
  have "?W \<in> set (concat (map (\<lambda>p. drawing_windows (drawing p)) (panels (snd (main ?env)))))"
    unfolding panels_main [OF st] by simp
  then have "?W \<in> set (render_windows (snd (main ?env)))"
    by (simp add: render_windows_def)
  with uniform_axis_bounds [of ?env] show ?thesis
    by blast
qed

section \<open>The reference density within the vertical window\<close>
























end
